theory Spec2Isabelle
  imports
    Main
    "HOL-Library.Word"
    "HOL-Library.Sublist"
    "HOL-Library.Char_ord"
    "HOL-Library.List_Lexorder"
begin

unbundle bit_operations_syntax

section \<open>Data model\<close>

subsection \<open>File modes\<close>

text \<open>
  Go's \<^verbatim>\<open>os.FileMode\<close> is a \<^verbatim>\<open>uint32\<close>. The mode bits are those of the standard
  library: \<^verbatim>\<open>ModeDir = 1 << 31\<close>, \<^verbatim>\<open>ModeSymlink = 1 << 27\<close>, \<^verbatim>\<open>ModeDevice = 1 << 26\<close>,
  \<^verbatim>\<open>ModeNamedPipe = 1 << 25\<close>, \<^verbatim>\<open>ModeSocket = 1 << 24\<close>, and
  \<^verbatim>\<open>ModeType = ModeDir | ModeSymlink | ModeNamedPipe | ModeSocket | ModeDevice\<close>.
  \<^verbatim>\<open>IsDir\<close> tests the directory bit, \<^verbatim>\<open>IsRegular\<close> tests that no type bit is set.
\<close>

type_synonym FileMode = "32 word"

definition ModeDir :: FileMode where
  "ModeDir = push_bit 31 1"

definition ModeSymlink :: FileMode where
  "ModeSymlink = push_bit 27 1"

definition ModeDevice :: FileMode where
  "ModeDevice = push_bit 26 1"

definition ModeNamedPipe :: FileMode where
  "ModeNamedPipe = push_bit 25 1"

definition ModeSocket :: FileMode where
  "ModeSocket = push_bit 24 1"

definition ModeType :: FileMode where
  "ModeType = ModeDir OR ModeSymlink OR ModeNamedPipe OR ModeSocket OR ModeDevice"

definition IsDir :: "FileMode \<Rightarrow> bool" where
  "IsDir m \<longleftrightarrow> m AND ModeDir \<noteq> 0"

definition IsRegular :: "FileMode \<Rightarrow> bool" where
  "IsRegular m \<longleftrightarrow> m AND ModeType = 0"

subsection \<open>Errors\<close>

text \<open>
  Errors are values. \<open>BackendError\<close> stands for whatever error the storage client
  hands back from a stat, a listing or a client construction; the others are the error
  values the planning code builds itself. Wrapping an error with a stack trace
  (\<^verbatim>\<open>Trace\<close>, \<^verbatim>\<open>iodine.New\<close>) does not change which error it is and is not modelled.
\<close>

datatype error =
    BackendError string
  | ErrInvalidTarget string
  | ErrOverWriteNotAllowed string
  | ErrInvalidSource string
  | ErrSourceNotRecursive string
  | ErrSourceIsNotDir string
  | ErrSourceListEmpty
  | ErrInvalidArgument

subsection \<open>Contents and listing events\<close>

text \<open>
  \<^verbatim>\<open>client.Content\<close> is declared outside the files at hand. The record holds the
  fields the planning code reads and writes: \<open>Name\<close> (cp-url.go), \<open>URL\<close> (the mirror
  engine, as the text \<^verbatim>\<open>URL.String()\<close> gives), \<open>Size\<close> (an \<^verbatim>\<open>int64\<close>) and \<open>Type\<close>.
  A Go struct literal leaves the fields it does not name at their zero value.
\<close>

record clientContent =
  Name :: string
  URL :: string
  Size :: "64 word"
  Type :: FileMode

definition zeroContent :: clientContent where
  "zeroContent = \<lparr>Name = [], URL = [], Size = 0, Type = 0\<rparr>"

text \<open>
  \<^verbatim>\<open>client.ContentOnChannel\<close> carries two pointers; either may be nil. A listing is the
  finite sequence of events its producer sends before it closes the channel.
\<close>

record contentOnChannel =
  Content :: "clientContent option"
  Err :: "error option"

definition zeroEvent :: contentOnChannel where
  "zeroEvent = \<lparr>Content = None, Err = None\<rparr>"

section \<open>The mirror delta engine\<close>

subsection \<open>Mirror instructions\<close>

record mirrorURLs =
  SourceContent :: "clientContent option"
  TargetContents :: "clientContent list"
  Error :: "error option"

text \<open>
  \<^verbatim>\<open>isEmpty\<close> reads \<^verbatim>\<open>m.SourceContent.Size\<close> in its second test. Go evaluates the
  operands of \<^verbatim>\<open>&&\<close> from the left, so when the first test fails on a nil
  \<^verbatim>\<open>SourceContent\<close> the dereference panics: the result \<open>None\<close>.
\<close>

definition isEmpty :: "mirrorURLs \<Rightarrow> bool option" where
  "isEmpty m =
     (if SourceContent m = None \<and> length (TargetContents m) = 0 \<and> Error m = None
      then Some True
      else (case SourceContent m of
              None \<Rightarrow> None
            | Some src \<Rightarrow>
                if Size src = 0 \<and> length (TargetContents m) = 0 \<and> Error m = None
                then Some True
                else Some False))"

subsection \<open>The availability oracle\<close>

text \<open>
  The collaborators of the mirror engine that live outside the files at hand:
  \<open>url2Client\<close> (the error it may return), the recursive listing \<open>List\<close> of the client
  of a URL, \<open>urlJoinPath\<close>, the separator of \<^verbatim>\<open>client.NewURL(u)\<close> as a string, and the
  package-level flag \<open>mirrorIsForce\<close>.
\<close>

record mirrorEnv =
  url2Client :: "string \<Rightarrow> error option"
  List :: "string \<Rightarrow> contentOnChannel list"
  urlJoinPath :: "string \<Rightarrow> string \<Rightarrow> string"
  NewURLSeparator :: "string \<Rightarrow> string"
  mirrorIsForce :: bool

text \<open>
  The variables the closure \<^verbatim>\<open>isAvailable\<close> captures: \<open>url\<close>, the channel \<open>ch\<close> (what the
  producer has still to send), \<open>current\<close>, \<open>reachedEOF\<close> and the last received \<open>content\<close>.
\<close>

record availState =
  url :: string
  ch :: "contentOnChannel list"
  current :: string
  reachedEOF :: bool
  content :: contentOnChannel

text \<open>
  The comparison made when \<^verbatim>\<open>expected == current\<close>, on the target entry \<open>tgt\<close> that
  \<^verbatim>\<open>content.Content\<close> points to.
\<close>

definition compareContent ::
  "bool \<Rightarrow> string \<Rightarrow> FileMode \<Rightarrow> 64 word \<Rightarrow> clientContent \<Rightarrow> bool \<times> error option" where
  "compareContent force cur srcType srcSize tgt =
     (if IsRegular srcType \<and> \<not> IsRegular (Type tgt) then (False, Some (ErrInvalidTarget cur))
      else if (IsRegular srcType \<and> IsRegular (Type tgt)) \<and> srcSize \<noteq> Size tgt then
        (if \<not> force then (False, Some (ErrOverWriteNotAllowed cur)) else (False, None))
      else (True, None))"

text \<open>
  The \<^verbatim>\<open>for\<close> loop of \<^verbatim>\<open>isAvailable\<close>. Every turn returns or receives one event, so the
  loop is a recursion on what the channel still holds. The result is \<open>None\<close> when the
  code dereferences a nil \<^verbatim>\<open>content.Content\<close>.
\<close>

fun isAvailableLoop ::
  "bool \<Rightarrow> string \<Rightarrow> FileMode \<Rightarrow> 64 word \<Rightarrow> string \<Rightarrow> string \<Rightarrow> contentOnChannel \<Rightarrow>
   contentOnChannel list \<Rightarrow> (bool \<times> error option) option \<times> availState" where
  "isAvailableLoop force expected srcType srcSize root cur cont chan =
     (if expected < cur then
        (Some (False, None),
         \<lparr>url = root, ch = chan, current = cur, reachedEOF = False, content = cont\<rparr>)
      else if expected = cur then
        (case Content cont of
           None \<Rightarrow>
             (None, \<lparr>url = root, ch = chan, current = cur, reachedEOF = False, content = cont\<rparr>)
         | Some tgt \<Rightarrow>
             (Some (compareContent force cur srcType srcSize tgt),
              \<lparr>url = root, ch = chan, current = cur, reachedEOF = False, content = cont\<rparr>))
      else
        (case chan of
           [] \<Rightarrow>
             (Some (False, None),
              \<lparr>url = root, ch = [], current = cur, reachedEOF = True, content = zeroEvent\<rparr>)
         | ev # rest \<Rightarrow>
             (if Err ev \<noteq> None then
                (Some (False, Err ev),
                 \<lparr>url = root, ch = rest, current = cur, reachedEOF = False, content = ev\<rparr>)
              else
                (case Content ev of
                   None \<Rightarrow>
                     (None,
                      \<lparr>url = root, ch = rest, current = cur, reachedEOF = False, content = ev\<rparr>)
                 | Some c \<Rightarrow>
                     isAvailableLoop force expected srcType srcSize root (URL c) ev rest))))"

definition isAvailable ::
  "mirrorEnv \<Rightarrow> string \<Rightarrow> FileMode \<Rightarrow> 64 word \<Rightarrow> availState \<Rightarrow>
   (bool \<times> error option) option \<times> availState" where
  "isAvailable env sfx srcType srcSize st =
     (if reachedEOF st then (Some (False, None), st)
      else isAvailableLoop (mirrorIsForce env) (urlJoinPath env (url st) sfx) srcType srcSize
             (url st) (current st) (content st) (ch st))"

definition getIsAvailable :: "mirrorEnv \<Rightarrow> string \<Rightarrow> error + availState" where
  "getIsAvailable env u =
     (case url2Client env u of
        Some err \<Rightarrow> Inl err
      | None \<Rightarrow>
          Inr \<lparr>url = u, ch = List env u, current = u, reachedEOF = False, content = zeroEvent\<rparr>)"

subsection \<open>String and path helpers of the Go standard library\<close>

definition HasSuffix :: "string \<Rightarrow> string \<Rightarrow> bool" where
  "HasSuffix s suf \<longleftrightarrow> suffix suf s"

definition TrimPrefix :: "string \<Rightarrow> string \<Rightarrow> string" where
  "TrimPrefix s pre = (if prefix pre s then drop (length pre) s else s)"

text \<open>
  \<^verbatim>\<open>filepath.Base\<close> with the separator \<^verbatim>\<open>/\<close>: the empty path gives \<^verbatim>\<open>.\<close>, trailing
  separators are stripped, the last element is what follows the last separator, and a
  path of separators only gives the separator.
\<close>

definition Base :: "string \<Rightarrow> string" where
  "Base path =
     (if path = [] then ''.''
      else
        (let stripped = rev (dropWhile (\<lambda>c. c = CHR ''/'') (rev path));
             lastElem = rev (takeWhile (\<lambda>c. c \<noteq> CHR ''/'') (rev stripped))
         in if lastElem = [] then ''/'' else lastElem))"

subsection \<open>The delta of a source against its targets\<close>

definition errorMirrorURLs :: "error \<Rightarrow> mirrorURLs" where
  "errorMirrorURLs e = \<lparr>SourceContent = None, TargetContents = [], Error = Some e\<rparr>"

text \<open>The loop that builds \<^verbatim>\<open>targetAvailable\<close>; it stops at the first error.\<close>

fun getAllAvailable :: "mirrorEnv \<Rightarrow> string list \<Rightarrow> error + availState list" where
  "getAllAvailable env [] = Inr []"
| "getAllAvailable env (u # us) =
     (case getIsAvailable env u of
        Inl err \<Rightarrow> Inl err
      | Inr st \<Rightarrow>
          (case getAllAvailable env us of
             Inl err \<Rightarrow> Inl err
           | Inr sts \<Rightarrow> Inr (st # sts)))"

text \<open>
  The suffix of one source entry: the entry's URL without the source URL in front, with
  \<open>sourceBaseDir\<close> joined before it when that is not empty.
\<close>

definition entrySuffix :: "mirrorEnv \<Rightarrow> string \<Rightarrow> string \<Rightarrow> clientContent \<Rightarrow> string" where
  "entrySuffix env sourceBaseDir sourceURL src =
     (let sfx = TrimPrefix (URL src) sourceURL
      in if sourceBaseDir \<noteq> [] then urlJoinPath env sourceBaseDir sfx else sfx)"

text \<open>
  The inner loop over the targets for one source entry. It gives the error instructions
  it sends, the \<open>targetContents\<close> it collects, the oracles as the queries leave them, and
  whether a query panicked (the goroutine dies there, with what was sent so far).
\<close>

fun queryTargets ::
  "mirrorEnv \<Rightarrow> string \<Rightarrow> FileMode \<Rightarrow> 64 word \<Rightarrow> (string \<times> availState) list \<Rightarrow>
   mirrorURLs list \<times> clientContent list \<times> (string \<times> availState) list \<times> bool" where
  "queryTargets env sfx srcType srcSize [] = ([], [], [], False)"
| "queryTargets env sfx srcType srcSize ((targetURL, st) # rest) =
     (case isAvailable env sfx srcType srcSize st of
        (None, st') \<Rightarrow> ([], [], (targetURL, st') # rest, True)
      | (Some (available, err), st') \<Rightarrow>
          (case queryTargets env sfx srcType srcSize rest of
             (errs, targetContents, rest', panicked) \<Rightarrow>
               (case err of
                  Some e \<Rightarrow>
                    (errorMirrorURLs e # errs, targetContents, (targetURL, st') # rest', panicked)
                | None \<Rightarrow>
                    if \<not> available then
                      (errs,
                       zeroContent\<lparr>URL := urlJoinPath env targetURL sfx\<rparr> # targetContents,
                       (targetURL, st') # rest', panicked)
                    else (errs, targetContents, (targetURL, st') # rest', panicked))))"

text \<open>
  The loop over the source listing. The result is what is sent on \<open>mirrorURLsCh\<close>, in
  order, and whether the goroutine panicked instead of closing the channel.
\<close>

fun mirrorLoop ::
  "mirrorEnv \<Rightarrow> string \<Rightarrow> string \<Rightarrow> (string \<times> availState) list \<Rightarrow> contentOnChannel list \<Rightarrow>
   mirrorURLs list \<times> bool" where
  "mirrorLoop env sourceBaseDir sourceURL targets [] = ([], False)"
| "mirrorLoop env sourceBaseDir sourceURL targets (sourceContent # evs) =
     (case Err sourceContent of
        Some e \<Rightarrow>
          (case mirrorLoop env sourceBaseDir sourceURL targets evs of
             (out, panicked) \<Rightarrow> (errorMirrorURLs e # out, panicked))
      | None \<Rightarrow>
          (case Content sourceContent of
             None \<Rightarrow> ([], True)
           | Some src \<Rightarrow>
               if IsDir (Type src) then mirrorLoop env sourceBaseDir sourceURL targets evs
               else
                 (case queryTargets env (entrySuffix env sourceBaseDir sourceURL src)
                         (Type src) (Size src) targets of
                    (errs, targetContents, targets', panicked) \<Rightarrow>
                      if panicked then (errs, True)
                      else
                        (case mirrorLoop env sourceBaseDir sourceURL targets' evs of
                           (out, panicked') \<Rightarrow>
                             (errs @
                              (if length targetContents > 0
                               then [\<lparr>SourceContent = Some src, TargetContents = targetContents,
                                      Error = None\<rparr>]
                               else []) @ out,
                              panicked')))))"

text \<open>
  The normalisation at the head of \<^verbatim>\<open>deltaSourceTargets\<close>: a URL gets the separator of
  its own \<^verbatim>\<open>client.NewURL\<close> appended unless it ends with it already, and \<open>sourceBaseDir\<close>
  is \<^verbatim>\<open>filepath.Base\<close> of the source URL when that did not end with its separator, and
  empty otherwise.
\<close>

definition withSeparator :: "mirrorEnv \<Rightarrow> string \<Rightarrow> string" where
  "withSeparator env u =
     (if \<not> HasSuffix u (NewURLSeparator env u) then u @ NewURLSeparator env u else u)"

definition sourceBaseDirOf :: "mirrorEnv \<Rightarrow> string \<Rightarrow> string" where
  "sourceBaseDirOf env sourceURL =
     (if \<not> HasSuffix sourceURL (NewURLSeparator env sourceURL) then Base sourceURL else [])"

definition deltaSourceTargets ::
  "mirrorEnv \<Rightarrow> string \<Rightarrow> string list \<Rightarrow> mirrorURLs list \<times> bool" where
  "deltaSourceTargets env sourceURL targetURLs =
     (let sourceBaseDir = sourceBaseDirOf env sourceURL;
          sourceURL' = withSeparator env sourceURL;
          targetURLs' = map (withSeparator env) targetURLs
      in case getAllAvailable env targetURLs' of
           Inl err \<Rightarrow> ([errorMirrorURLs err], False)
         | Inr targetAvailable \<Rightarrow>
             (case url2Client env sourceURL' of
                Some err \<Rightarrow> ([errorMirrorURLs err], False)
              | None \<Rightarrow>
                  mirrorLoop env sourceBaseDir sourceURL' (zip targetURLs' targetAvailable)
                    (List env sourceURL')))"

subsection \<open>Query sequences and the stateless reading of a listing\<close>

text \<open>
  A sequence of queries put to one oracle, each on the state the one before left. A
  panic ends the sequence.
\<close>

fun runQueries ::
  "mirrorEnv \<Rightarrow> (string \<times> FileMode \<times> 64 word) list \<Rightarrow> availState \<Rightarrow>
   (bool \<times> error option) option list" where
  "runQueries env [] st = []"
| "runQueries env ((sfx, srcType, srcSize) # qs) st =
     (case isAvailable env sfx srcType srcSize st of
        (None, st') \<Rightarrow> [None]
      | (Some r, st') \<Rightarrow> Some r # runQueries env qs st')"

text \<open>
  What the specification says a query answers, read off the whole target listing at
  once: look the expected path up among the entries, and compare the first entry found.
\<close>

definition lookupAvailable ::
  "bool \<Rightarrow> clientContent list \<Rightarrow> string \<Rightarrow> FileMode \<Rightarrow> 64 word \<Rightarrow> bool \<times> error option" where
  "lookupAvailable force entries expected srcType srcSize =
     (case find (\<lambda>c. URL c = expected) entries of
        None \<Rightarrow> (False, None)
      | Some tgt \<Rightarrow> compareContent force expected srcType srcSize tgt)"

definition entryEvent :: "clientContent \<Rightarrow> contentOnChannel" where
  "entryEvent c = \<lparr>Content = Some c, Err = None\<rparr>"

text \<open>
  Where the cursor of an oracle stands, for the proofs: \<open>tracks st v\<close> says that the
  entries the oracle \<open>st\<close> can still answer from are \<open>v\<close> (the entry it rests on, if any,
  and what the channel holds), and \<open>fresh st\<close> that it has received nothing yet.
  \<open>cursorAnswer\<close> is the answer a forward scan of \<open>v\<close> gives.
\<close>

definition cursorAnswer ::
  "bool \<Rightarrow> clientContent list \<Rightarrow> string \<Rightarrow> FileMode \<Rightarrow> 64 word \<Rightarrow> bool \<times> error option" where
  "cursorAnswer force v expected srcType srcSize =
     (case dropWhile (\<lambda>c. URL c < expected) v of
        [] \<Rightarrow> (False, None)
      | c # rest \<Rightarrow>
          if URL c = expected then compareContent force expected srcType srcSize c
          else (False, None))"

definition fresh :: "availState \<Rightarrow> bool" where
  "fresh st \<longleftrightarrow> \<not> reachedEOF st \<and> Content (content st) = None"

definition tracks :: "availState \<Rightarrow> clientContent list \<Rightarrow> bool" where
  "tracks st v \<longleftrightarrow>
     (if reachedEOF st then v = []
      else if Content (content st) = None then ch st = map entryEvent v
      else (case v of
              [] \<Rightarrow> False
            | c # rest \<Rightarrow>
                content st = entryEvent c \<and> current st = URL c \<and> ch st = map entryEvent rest))"

definition freshOracle :: "mirrorEnv \<Rightarrow> string \<Rightarrow> availState" where
  "freshOracle env u =
     \<lparr>url = u, ch = List env u, current = u, reachedEOF = False, content = zeroEvent\<rparr>"

section \<open>The copy planner\<close>

subsection \<open>More of the Go standard library\<close>

text \<open>
  \<^verbatim>\<open>strings.TrimSpace\<close> removes leading and trailing white space as Unicode defines it.
  On the bytes of a UTF-8 string these are the encodings below: the six ASCII ones,
  U+0085, U+00A0, U+1680, U+2000 to U+200A, U+2028, U+2029, U+202F, U+205F and U+3000.
\<close>

definition spaceRunes :: "string list" where
  "spaceRunes =
     [[CHR 0x09], [CHR 0x0A], [CHR 0x0B], [CHR 0x0C], [CHR 0x0D], [CHR 0x20],
      [CHR 0xC2, CHR 0x85], [CHR 0xC2, CHR 0xA0],
      [CHR 0xE1, CHR 0x9A, CHR 0x80],
      [CHR 0xE2, CHR 0x80, CHR 0x80], [CHR 0xE2, CHR 0x80, CHR 0x81],
      [CHR 0xE2, CHR 0x80, CHR 0x82], [CHR 0xE2, CHR 0x80, CHR 0x83],
      [CHR 0xE2, CHR 0x80, CHR 0x84], [CHR 0xE2, CHR 0x80, CHR 0x85],
      [CHR 0xE2, CHR 0x80, CHR 0x86], [CHR 0xE2, CHR 0x80, CHR 0x87],
      [CHR 0xE2, CHR 0x80, CHR 0x88], [CHR 0xE2, CHR 0x80, CHR 0x89],
      [CHR 0xE2, CHR 0x80, CHR 0x8A],
      [CHR 0xE2, CHR 0x80, CHR 0xA8], [CHR 0xE2, CHR 0x80, CHR 0xA9],
      [CHR 0xE2, CHR 0x80, CHR 0xAF], [CHR 0xE2, CHR 0x81, CHR 0x9F],
      [CHR 0xE3, CHR 0x80, CHR 0x80]]"

fun trimRunes :: "string list \<Rightarrow> string \<Rightarrow> string" where
  "trimRunes ps [] = []"
| "trimRunes ps (c # cs) =
     (case find (\<lambda>p. prefix p (c # cs)) ps of
        None \<Rightarrow> c # cs
      | Some p \<Rightarrow> trimRunes ps (drop (length p - 1) cs))"

definition TrimSpace :: "string \<Rightarrow> string" where
  "TrimSpace s = rev (trimRunes (map rev spaceRunes) (rev (trimRunes spaceRunes s)))"






subsection \<open>Copy instructions and the collaborators of the planner\<close>

record copyURLs =
  SourceContent :: "clientContent option"
  TargetContent :: "clientContent option"
  Error :: "error option"

datatype copyURLsType =
    copyURLsTypeInvalid
  | copyURLsTypeA
  | copyURLsTypeB
  | copyURLsTypeC
  | copyURLsTypeD

text \<open>
  \<^verbatim>\<open>client.URL\<close>, with the fields the planner uses.
\<close>

record clientURL =
  Scheme :: string
  Host :: string
  Path :: string
  Separator :: char

text \<open>
  What the planner calls and the files at hand do not hold: \<open>url2Stat\<close> (the content
  it returns, or its error), \<open>isTargetURLDir\<close>, \<open>isURLRecursive\<close>, \<open>stripRecursiveURL\<close>,
  \<^verbatim>\<open>client.Parse\<close>, \<^verbatim>\<open>URL.String\<close>, and the recursive listing of the client of a URL.
  They are fixed while a plan is made.
\<close>

record copyEnv =
  url2Stat :: "string \<Rightarrow> error + clientContent"
  isTargetURLDir :: "string \<Rightarrow> bool"
  isURLRecursive :: "string \<Rightarrow> bool"
  stripRecursiveURL :: "string \<Rightarrow> string"
  Parse :: "string \<Rightarrow> error + clientURL"
  URLString :: "clientURL \<Rightarrow> string"
  ListRecursive :: "string \<Rightarrow> contentOnChannel list"

subsection \<open>The classifier\<close>

text \<open>
  A Go slice is nil or holds a (possibly empty) sequence: \<open>None\<close> is the nil slice,
  \<open>Some []\<close> a slice of length 0 that is not nil.
\<close>

definition guessCopyURLType :: "copyEnv \<Rightarrow> string list option \<Rightarrow> string \<Rightarrow> copyURLsType" where
  "guessCopyURLType env sourceURLs targetURL =
     (if TrimSpace targetURL = [] \<or> targetURL = [] then copyURLsTypeInvalid
      else (case sourceURLs of
              None \<Rightarrow> copyURLsTypeInvalid
            | Some srcs \<Rightarrow>
                if length srcs = 1 then
                  (if isURLRecursive env (srcs ! 0) then copyURLsTypeC
                   else if isTargetURLDir env targetURL then copyURLsTypeB
                   else copyURLsTypeA)
                else copyURLsTypeD))"

subsection \<open>The plan generators\<close>

definition errorCopyURLs :: "error \<Rightarrow> copyURLs" where
  "errorCopyURLs e = \<lparr>SourceContent = None, TargetContent = None, Error = Some e\<rparr>"

text \<open>Each generator gives what it sends on its channel before closing it.\<close>

definition prepareCopyURLsTypeA :: "copyEnv \<Rightarrow> string \<Rightarrow> string \<Rightarrow> copyURLs list" where
  "prepareCopyURLsTypeA env sourceURL targetURL =
     (case url2Stat env sourceURL of
        Inl err \<Rightarrow> [errorCopyURLs err]
      | Inr sourceContent \<Rightarrow>
          if \<not> IsRegular (Type sourceContent) then [errorCopyURLs (ErrInvalidSource sourceURL)]
          else [\<lparr>SourceContent = Some (sourceContent\<lparr>Name := sourceURL\<rparr>),
                 TargetContent = Some (zeroContent\<lparr>Name := targetURL\<rparr>),
                 Error = None\<rparr>])"







section \<open>Concrete scenarios\<close>

text \<open>
  Entries and environments for the concrete scenarios of the specification. A file has
  mode \<^verbatim>\<open>0644\<close>, a directory the mode \<^verbatim>\<open>ModeDir\<close>.
\<close>

definition fileContent :: "string \<Rightarrow> 64 word \<Rightarrow> clientContent" where
  "fileContent n sz = \<lparr>Name = n, URL = n, Size = sz, Type = 0x1A4\<rparr>"

definition dirContent :: "string \<Rightarrow> clientContent" where
  "dirContent n = \<lparr>Name = n, URL = n, Size = 0, Type = ModeDir\<rparr>"

text \<open>
  Modelled from the spec: \<^verbatim>\<open>urlJoinPath\<close> is not among the files at hand; the
  specification has it join two path segments respecting the separator. Here the
  separator is \<^verbatim>\<open>/\<close>, put between the two unless the first ends with it, and a leading
  one of the second is dropped.
\<close>

definition exampleJoin :: "string \<Rightarrow> string \<Rightarrow> string" where
  "exampleJoin a b =
     (if HasSuffix a ''/'' then a @ TrimPrefix b ''/'' else a @ ''/'' @ TrimPrefix b ''/'')"

text \<open>
  An environment of the mirror engine given by the listings at some URLs (any other
  URL lists nothing), in which every client can be made.
\<close>

definition listingEnv :: "bool \<Rightarrow> (string \<times> contentOnChannel list) list \<Rightarrow> mirrorEnv" where
  "listingEnv force listings =
     \<lparr>url2Client = (\<lambda>u. None),
      List = (\<lambda>u. case map_of listings u of None \<Rightarrow> [] | Some evs \<Rightarrow> evs),
      urlJoinPath = exampleJoin,
      NewURLSeparator = (\<lambda>u. ''/''),
      mirrorIsForce = force\<rparr>"

text \<open>
  The scenario of the specification: a source with \<^verbatim>\<open>a.txt\<close> (5 bytes) and
  \<^verbatim>\<open>sub/b.txt\<close> (3 bytes), and a target that holds both already.
\<close>

definition exampleSource :: "clientContent list" where
  "exampleSource =
     [fileContent ''s/a.txt'' 5, dirContent ''s/sub'', fileContent ''s/sub/b.txt'' 3]"

definition exampleTarget :: "clientContent list" where
  "exampleTarget = [fileContent ''t/a.txt'' 5, dirContent ''t/sub'', fileContent ''t/sub/b.txt'' 3]"

definition mirroredEnv :: mirrorEnv where
  "mirroredEnv =
     listingEnv False
       [(''s/'', map entryEvent exampleSource), (''t/'', map entryEvent exampleTarget)]"

text \<open>
  Modelled from the spec: \<^verbatim>\<open>isURLRecursive\<close>, \<^verbatim>\<open>stripRecursiveURL\<close>, \<^verbatim>\<open>client.Parse\<close> and
  \<^verbatim>\<open>URL.String\<close> are not among the files at hand. The specification has the recursive
  marker a trailing ellipsis that is detected and stripped, and parsing a path give its
  components or fail; here a URL is its path, and the one text that does not parse is
  \<^verbatim>\<open>%\<close>. The file system holds \<^verbatim>\<open>f1\<close>, the directory \<^verbatim>\<open>out\<close>, and the directory \<^verbatim>\<open>dir\<close> with
  \<^verbatim>\<open>a.txt\<close> and \<^verbatim>\<open>sub/b.txt\<close>; the listing of \<^verbatim>\<open>dir/\<close> meets one error on its way.
\<close>

definition exampleCopyEnv :: copyEnv where
  "exampleCopyEnv =
     \<lparr>url2Stat = (\<lambda>u.
        if u = ''f1'' then Inr (fileContent ''f1'' 5)
        else if u = ''dir/a.txt'' then Inr (fileContent ''a.txt'' 5)
        else if u = ''dir/sub/b.txt'' then Inr (fileContent ''sub/b.txt'' 3)
        else if u = ''out'' \<or> u = ''out/'' \<or> u = ''dir/'' \<or> u = ''dir/sub'' then Inr (dirContent u)
        else Inl (BackendError ''no such file or directory'')),
      isTargetURLDir = (\<lambda>u. u = ''out'' \<or> u = ''out/'' \<or> u = ''dir/'' \<or> u = ''dir/sub''),
      isURLRecursive = (\<lambda>u. HasSuffix u ''...''),
      stripRecursiveURL = (\<lambda>u. if HasSuffix u ''...'' then take (length u - 3) u else u),
      Parse = (\<lambda>u. if u = ''%'' then Inl (BackendError ''invalid URL escape'')
                    else Inr \<lparr>Scheme = [], Host = [], Path = u, Separator = CHR ''/''\<rparr>),
      URLString = Path,
      ListRecursive = (\<lambda>u.
        if u = ''dir/'' then
          [entryEvent (fileContent ''a.txt'' 5),
           entryEvent (dirContent ''sub''),
           \<lparr>Content = None, Err = Some (BackendError ''permission denied'')\<rparr>,
           entryEvent (fileContent ''sub/b.txt'' 3)]
        else [])\<rparr>"

section \<open>Properties\<close>

declare isAvailableLoop.simps [simp del]

subsection \<open>File modes\<close>
lemma IsDir_not_IsRegular: "IsDir m \<Longrightarrow> \<not> IsRegular m"
proof
  assume d: "IsDir m" and r: "IsRegular m"
  have "ModeType AND ModeDir = ModeDir"
    by (simp add: ModeType_def ModeDir_def ModeSymlink_def ModeNamedPipe_def ModeSocket_def
          ModeDevice_def)
  then have "m AND ModeDir = (m AND ModeType) AND ModeDir"
    by (simp add: and.assoc)
  with r have "m AND ModeDir = 0" by (simp add: IsRegular_def)
  with d show False by (simp add: IsDir_def)
qed

lemma fileContent_regular: "IsRegular (Type (fileContent n sz))"
  by (simp add: fileContent_def IsRegular_def ModeType_def ModeDir_def ModeSymlink_def
        ModeNamedPipe_def ModeSocket_def ModeDevice_def)

lemma dirContent_dir: "IsDir (Type (dirContent n))"
  by (simp add: dirContent_def IsDir_def ModeDir_def)

lemma regular_0644: "IsRegular 0x1A4"
  by (simp add: IsRegular_def ModeType_def ModeDir_def ModeSymlink_def
        ModeNamedPipe_def ModeSocket_def ModeDevice_def)

lemma symlink_not_regular: "\<not> IsRegular ModeSymlink"
  by (simp add: IsRegular_def ModeType_def ModeDir_def ModeSymlink_def
        ModeNamedPipe_def ModeSocket_def ModeDevice_def)


lemma listingEnv_fields:
  "url2Client (listingEnv force listings) u = None"
  "List (listingEnv force listings) u = (case map_of listings u of None \<Rightarrow> [] | Some evs \<Rightarrow> evs)"
  "urlJoinPath (listingEnv force listings) = exampleJoin"
  "NewURLSeparator (listingEnv force listings) u = ''/''"
  "mirrorIsForce (listingEnv force listings) = force"
  by (simp_all add: listingEnv_def)


lemmas mode_defs = IsRegular_def IsDir_def ModeType_def ModeDir_def ModeSymlink_def
  ModeNamedPipe_def ModeSocket_def ModeDevice_def

lemmas example_defs = listingEnv_fields fileContent_def dirContent_def exampleJoin_def
  HasSuffix_def TrimPrefix_def suffix_to_prefix entryEvent_def withSeparator_def
  sourceBaseDirOf_def entrySuffix_def


subsection \<open>The cursor of an oracle\<close>




lemma loop_pull:
  "cur < e \<Longrightarrow>
   fst (isAvailableLoop force e ty sz r cur cont (map entryEvent v)) =
     Some (cursorAnswer force v e ty sz) \<and>
   tracks (snd (isAvailableLoop force e ty sz r cur cont (map entryEvent v)))
     (dropWhile (\<lambda>c. URL c < e) v) \<and>
   \<not> fresh (snd (isAvailableLoop force e ty sz r cur cont (map entryEvent v))) \<and>
   url (snd (isAvailableLoop force e ty sz r cur cont (map entryEvent v))) = r"
proof (induction v arbitrary: cur cont)
  case Nil
  then have "\<not> e < cur" "e \<noteq> cur" by auto
  then show ?case
    by (simp add: isAvailableLoop.simps cursorAnswer_def tracks_def fresh_def zeroEvent_def)
next
  case (Cons c v)
  have unfold: "isAvailableLoop force e ty sz r cur cont (map entryEvent (c # v)) =
      isAvailableLoop force e ty sz r (URL c) (entryEvent c) (map entryEvent v)"
  proof -
    from Cons.prems have "\<not> e < cur" "e \<noteq> cur" by auto
    then show ?thesis
      by (subst isAvailableLoop.simps) (simp add: entryEvent_def)
  qed
  show ?case
  proof (cases "URL c < e")
    case True
    then show ?thesis
      using Cons.IH [OF True, of "entryEvent c"] unfold
      by (simp add: cursorAnswer_def)
  next
    case False
    then have "e < URL c \<or> e = URL c" by auto
    then show ?thesis
      unfolding unfold using False
      by (subst (1 2 3 4) isAvailableLoop.simps)
         (auto simp add: cursorAnswer_def tracks_def fresh_def entryEvent_def)
  qed
qed

lemma isAvailable_tracks:
  assumes "tracks st v"
    and "fresh st \<Longrightarrow> current st < urlJoinPath env (url st) sfx"
  shows "fst (isAvailable env sfx ty sz st) =
           Some (cursorAnswer (mirrorIsForce env) v (urlJoinPath env (url st) sfx) ty sz) \<and>
         tracks (snd (isAvailable env sfx ty sz st))
           (dropWhile (\<lambda>c. URL c < urlJoinPath env (url st) sfx) v) \<and>
         \<not> fresh (snd (isAvailable env sfx ty sz st)) \<and>
         url (snd (isAvailable env sfx ty sz st)) = url st"
proof (cases "reachedEOF st")
  case True
  with assms(1) show ?thesis
    by (simp add: isAvailable_def tracks_def cursorAnswer_def fresh_def)
next
  case eof: False
  let ?e = "urlJoinPath env (url st) sfx"
  show ?thesis
  proof (cases "Content (content st)")
    case None
    then have f: "fresh st" using eof by (simp add: fresh_def)
    have chv: "ch st = map entryEvent v"
      using assms(1) eof None by (simp add: tracks_def)
    show ?thesis
      using loop_pull [OF assms(2) [OF f], of "mirrorIsForce env" ty sz "url st" "content st" v]
        eof chv
      by (simp add: isAvailable_def)
  next
    case (Some c0)
    then obtain c rest where v: "v = c # rest" and cont: "content st = entryEvent c"
      and cur: "current st = URL c" and chv: "ch st = map entryEvent rest"
      using assms(1) eof by (auto simp add: tracks_def split: list.splits)
    show ?thesis
    proof (cases "URL c < ?e")
      case True
      have unfold: "isAvailableLoop (mirrorIsForce env) ?e ty sz (url st) (URL c)
           (entryEvent c) (map entryEvent rest) =
        isAvailableLoop (mirrorIsForce env) ?e ty sz (url st) (URL c)
           (entryEvent c) (map entryEvent rest)" by simp
      show ?thesis
        using loop_pull [OF True, of "mirrorIsForce env" ty sz "url st" "entryEvent c" rest]
          eof True
        by (simp add: isAvailable_def v cont cur chv cursorAnswer_def)
    next
      case False
      then have "?e < URL c \<or> ?e = URL c" by auto
      then show ?thesis
        using eof False
        by (auto simp add: isAvailable_def isAvailableLoop.simps v cont cur chv
              cursorAnswer_def tracks_def fresh_def entryEvent_def)
    qed
  qed
qed


lemma dropWhile_less_twice:
  fixes e1 e2 :: string
  assumes "e1 \<le> e2"
  shows "dropWhile (\<lambda>c. URL c < e2) (dropWhile (\<lambda>c. URL c < e1) v) =
         dropWhile (\<lambda>c. URL c < e2) v"
proof (induction v)
  case Nil
  show ?case by simp
next
  case (Cons c v)
  show ?case
  proof (cases "URL c < e1")
    case True
    with assms have "URL c < e2" by auto
    with True Cons show ?thesis by simp
  next
    case False
    then show ?thesis by simp
  qed
qed

lemma cursorAnswer_dropWhile:
  "e1 \<le> e2 \<Longrightarrow>
   cursorAnswer force (dropWhile (\<lambda>c. URL c < e1) v) e2 ty sz = cursorAnswer force v e2 ty sz"
  by (simp add: cursorAnswer_def dropWhile_less_twice)

lemma cursorAnswer_lookup:
  "sorted (map URL v) \<Longrightarrow> cursorAnswer force v e ty sz = lookupAvailable force v e ty sz"
proof (induction v)
  case Nil
  show ?case by (simp add: cursorAnswer_def lookupAvailable_def)
next
  case (Cons c v)
  then have IH: "cursorAnswer force v e ty sz = lookupAvailable force v e ty sz"
    and le: "\<forall>x\<in>set v. URL c \<le> URL x"
    by simp_all
  show ?case
  proof (cases "URL c < e")
    case True
    then have "URL c \<noteq> e" by auto
    with True IH show ?thesis
      by (simp add: cursorAnswer_def lookupAvailable_def)
  next
    case False
    show ?thesis
    proof (cases "URL c = e")
      case True
      then show ?thesis by (simp add: cursorAnswer_def lookupAvailable_def)
    next
      case ne: False
      with False have "e < URL c" by auto
      with le have "\<forall>x\<in>set v. URL x \<noteq> e" by auto
      then have "find (\<lambda>c. URL c = e) v = None"
        by (simp add: find_None_iff)
      with False ne show ?thesis
        by (simp add: cursorAnswer_def lookupAvailable_def)
    qed
  qed
qed

lemma runQueries_tracks:
  assumes "tracks st v"
    and "sorted (map (\<lambda>q. urlJoinPath env (url st) (fst q)) qs)"
    and "fresh st \<Longrightarrow> \<forall>q\<in>set qs. current st < urlJoinPath env (url st) (fst q)"
  shows "runQueries env qs st =
         map (\<lambda>q. Some (cursorAnswer (mirrorIsForce env) v (urlJoinPath env (url st) (fst q))
                          (fst (snd q)) (snd (snd q)))) qs"
  using assms
proof (induction qs arbitrary: st v)
  case Nil
  show ?case by simp
next
  case (Cons q qs)
  obtain sfx ty sz where q: "q = (sfx, ty, sz)" by (cases q) auto
  let ?e = "urlJoinPath env (url st) sfx"
  let ?r = "isAvailable env sfx ty sz st"
  have step: "fst ?r = Some (cursorAnswer (mirrorIsForce env) v ?e ty sz)"
     "tracks (snd ?r) (dropWhile (\<lambda>c. URL c < ?e) v)" "\<not> fresh (snd ?r)"
     "url (snd ?r) = url st"
    using isAvailable_tracks [OF Cons.prems(1), of env sfx ty sz] Cons.prems(3)
    by (simp_all add: q)
  have srt: "sorted (map (\<lambda>q. urlJoinPath env (url (snd ?r)) (fst q)) qs)"
    and le: "\<forall>q'\<in>set qs. ?e \<le> urlJoinPath env (url st) (fst q')"
    using Cons.prems(2) by (simp_all add: q step(4))
  have rest: "runQueries env qs (snd ?r) =
      map (\<lambda>q. Some (cursorAnswer (mirrorIsForce env) (dropWhile (\<lambda>c. URL c < ?e) v)
             (urlJoinPath env (url (snd ?r)) (fst q)) (fst (snd q)) (snd (snd q)))) qs"
    using Cons.IH [OF step(2) srt] step(3) by simp
  have "runQueries env (q # qs) st =
      Some (cursorAnswer (mirrorIsForce env) v ?e ty sz) # runQueries env qs (snd ?r)"
    using step(1) by (cases ?r) (simp add: q)
  also have "runQueries env qs (snd ?r) =
      map (\<lambda>q. Some (cursorAnswer (mirrorIsForce env) v
             (urlJoinPath env (url st) (fst q)) (fst (snd q)) (snd (snd q)))) qs"
    unfolding rest using le
    by (simp add: step(4) cursorAnswer_dropWhile)
  finally show ?case by (simp add: q)
qed


lemma queryTargets_result:
  "queryTargets env sfx ty sz targets = (errs, tcs, targets', p) \<Longrightarrow>
   map fst targets' = map fst targets \<and>
   (\<forall>m\<in>set errs. mirrorURLs.Error m \<noteq> None) \<and>
   (\<forall>t\<in>set tcs. \<exists>u\<in>fst ` set targets. URL t = urlJoinPath env u sfx)"
proof (induction targets arbitrary: errs tcs targets' p)
  case Nil
  then show ?case by simp
next
  case (Cons a targets)
  obtain targetURL st where a: "a = (targetURL, st)" by (cases a) auto
  obtain r st' where r: "isAvailable env sfx ty sz st = (r, st')"
    by (cases "isAvailable env sfx ty sz st") auto
  show ?case
  proof (cases r)
    case None
    with Cons.prems a r show ?thesis by auto
  next
    case (Some ae)
    obtain available err where ae: "ae = (available, err)" by (cases ae) auto
    obtain errs0 tcs0 rest0 p0 where
      q: "queryTargets env sfx ty sz targets = (errs0, tcs0, rest0, p0)"
      by (cases "queryTargets env sfx ty sz targets") auto
    note IH = Cons.IH [OF q]
    show ?thesis
      using Cons.prems IH
      by (auto simp add: a r Some ae q errorMirrorURLs_def zeroContent_def
            split: option.splits if_splits)
  qed
qed



lemma mirrorLoop_error_event:
  "Err ev = Some e \<Longrightarrow> mirrorLoop env base s targets evs = (out0, p0) \<Longrightarrow>
   mirrorLoop env base s targets (ev # evs) = (errorMirrorURLs e # out0, p0)"
  by simp

lemma mirrorLoop_nil_event:
  "Err ev = None \<Longrightarrow> Content ev = None \<Longrightarrow>
   mirrorLoop env base s targets (ev # evs) = ([], True)"
  by simp

lemma mirrorLoop_dir_event:
  "Err ev = None \<Longrightarrow> Content ev = Some src \<Longrightarrow> IsDir (Type src) \<Longrightarrow>
   mirrorLoop env base s targets (ev # evs) = mirrorLoop env base s targets evs"
  by simp

lemma mirrorLoop_panic_event:
  "Err ev = None \<Longrightarrow> Content ev = Some src \<Longrightarrow> \<not> IsDir (Type src) \<Longrightarrow>
   queryTargets env (entrySuffix env base s src) (Type src) (Size src) targets =
     (errs, tcs, targets', True) \<Longrightarrow>
   mirrorLoop env base s targets (ev # evs) = (errs, True)"
  by simp

lemma mirrorLoop_entry_event:
  "Err ev = None \<Longrightarrow> Content ev = Some src \<Longrightarrow> \<not> IsDir (Type src) \<Longrightarrow>
   queryTargets env (entrySuffix env base s src) (Type src) (Size src) targets =
     (errs, tcs, targets', False) \<Longrightarrow>
   mirrorLoop env base s targets' evs = (out0, p0) \<Longrightarrow>
   mirrorLoop env base s targets (ev # evs) =
     (errs @
      (if tcs \<noteq> []
       then [\<lparr>mirrorURLs.SourceContent = Some src, TargetContents = tcs,
              mirrorURLs.Error = None\<rparr>]
       else []) @ out0, p0)"
  by simp


lemma mirrorLoop_instructions:
  "mirrorLoop env base s targets evs = (out, p) \<Longrightarrow> m \<in> set out \<Longrightarrow>
   mirrorURLs.Error m = None \<Longrightarrow>
   TargetContents m \<noteq> [] \<and>
   (\<exists>src. mirrorURLs.SourceContent m = Some src \<and>
      (\<forall>t\<in>set (TargetContents m).
         \<exists>u\<in>fst ` set targets. URL t = urlJoinPath env u (entrySuffix env base s src)))"
proof (induction evs arbitrary: targets out p)
  case Nil
  then show ?case by simp
next
  case (Cons ev evs)
  show ?case
  proof (cases "Err ev")
    case (Some e)
    obtain out0 p0 where l: "mirrorLoop env base s targets evs = (out0, p0)"
      by (cases "mirrorLoop env base s targets evs") auto
    from Cons.prems(1) have "out = errorMirrorURLs e # out0"
      unfolding mirrorLoop_error_event [OF Some l] by simp
    with Cons.prems(2,3) have "m \<in> set out0"
      by (auto simp add: errorMirrorURLs_def)
    from Cons.IH [OF l this Cons.prems(3)] show ?thesis .
  next
    case None
    show ?thesis
    proof (cases "Content ev")
      case cn: None
      from Cons.prems(1) have "out = []"
        unfolding mirrorLoop_nil_event [OF None cn] by simp
      with Cons.prems(2) show ?thesis by simp
    next
      case (Some src)
      show ?thesis
      proof (cases "IsDir (Type src)")
        case True
        from Cons.prems(1)
        have "mirrorLoop env base s targets evs = (out, p)"
          unfolding mirrorLoop_dir_event [OF None Some True] .
        from Cons.IH [OF this Cons.prems(2,3)] show ?thesis .
      next
        case False
        let ?sfx = "entrySuffix env base s src"
        obtain errs tcs targets' pq where
          q: "queryTargets env ?sfx (Type src) (Size src) targets = (errs, tcs, targets', pq)"
          by (cases "queryTargets env ?sfx (Type src) (Size src) targets") auto
        note qr = queryTargets_result [OF q]
        have fsteq: "fst ` set targets' = fst ` set targets"        proof -
          from qr have "map fst targets' = map fst targets" by simp
          then have "set (map fst targets') = set (map fst targets)" by simp
          then show ?thesis by simp
        qed
        show ?thesis
        proof (cases pq)
          case True
          from q True have q': "queryTargets env ?sfx (Type src) (Size src) targets =
              (errs, tcs, targets', True)" by simp
          from Cons.prems(1) have "out = errs"
            unfolding mirrorLoop_panic_event [OF None Some False q'] by simp
          with Cons.prems(2) have "m \<in> set errs" by simp
          with qr have "mirrorURLs.Error m \<noteq> None" by blast
          with Cons.prems(3) show ?thesis by simp
        next
          case npq: False
          obtain out0 p0 where l: "mirrorLoop env base s targets' evs = (out0, p0)"
            by (cases "mirrorLoop env base s targets' evs") auto
          from q npq have q': "queryTargets env ?sfx (Type src) (Size src) targets =
              (errs, tcs, targets', False)" by simp
          from Cons.prems(1)
          have out: "out = errs @
              (if tcs \<noteq> []
               then [\<lparr>mirrorURLs.SourceContent = Some src, TargetContents = tcs,
                      mirrorURLs.Error = None\<rparr>]
               else []) @ out0"
            unfolding mirrorLoop_entry_event [OF None Some False q' l] by simp
          from Cons.prems(2) out consider (e) "m \<in> set errs"
            | (i) "tcs \<noteq> []" "m = \<lparr>mirrorURLs.SourceContent = Some src, TargetContents = tcs,
                      mirrorURLs.Error = None\<rparr>"
            | (r) "m \<in> set out0"
            by (auto split: if_splits)
          then show ?thesis
          proof cases
            case e
            with qr have "mirrorURLs.Error m \<noteq> None" by blast
            with Cons.prems(3) show ?thesis by simp
          next
            case i
            from qr have "\<forall>t\<in>set tcs. \<exists>u\<in>fst ` set targets.
                URL t = urlJoinPath env u (entrySuffix env base s src)"
              by blast
            with i show ?thesis by simp
          next
            case r
            from Cons.IH [OF l r Cons.prems(3)] fsteq show ?thesis by simp
          qed
        qed
      qed
    qed
  qed
qed



lemma deltaSourceTargets_run:
  "getAllAvailable env (map (withSeparator env) targetURLs) = Inr targetAvailable \<Longrightarrow>
   url2Client env (withSeparator env sourceURL) = None \<Longrightarrow>
   deltaSourceTargets env sourceURL targetURLs =
     mirrorLoop env (sourceBaseDirOf env sourceURL) (withSeparator env sourceURL)
       (zip (map (withSeparator env) targetURLs) targetAvailable)
       (List env (withSeparator env sourceURL))"
  by (simp add: deltaSourceTargets_def Let_def)

lemma deltaSourceTargets_no_oracle:
  "getAllAvailable env (map (withSeparator env) targetURLs) = Inl err \<Longrightarrow>
   deltaSourceTargets env sourceURL targetURLs = ([errorMirrorURLs err], False)"
  by (simp add: deltaSourceTargets_def Let_def)

lemma deltaSourceTargets_no_source:
  "getAllAvailable env (map (withSeparator env) targetURLs) = Inr targetAvailable \<Longrightarrow>
   url2Client env (withSeparator env sourceURL) = Some err \<Longrightarrow>
   deltaSourceTargets env sourceURL targetURLs = ([errorMirrorURLs err], False)"
  by (simp add: deltaSourceTargets_def Let_def)

lemma deltaSourceTargets_instructions:
  assumes "m \<in> set (fst (deltaSourceTargets env sourceURL targetURLs))"
    and "mirrorURLs.Error m = None"
  shows "TargetContents m \<noteq> [] \<and>
   (\<exists>src. mirrorURLs.SourceContent m = Some src \<and>
      (\<forall>t\<in>set (TargetContents m).
         \<exists>u\<in>set targetURLs. URL t =
           urlJoinPath env (withSeparator env u)
             (entrySuffix env (sourceBaseDirOf env sourceURL) (withSeparator env sourceURL) src)))"
proof (cases "getAllAvailable env (map (withSeparator env) targetURLs)")
  case (Inl err)
  from assms show ?thesis
    unfolding deltaSourceTargets_no_oracle [OF Inl] by (simp add: errorMirrorURLs_def)
next
  case (Inr targetAvailable)
  show ?thesis
  proof (cases "url2Client env (withSeparator env sourceURL)")
    case (Some err)
    from assms show ?thesis
      unfolding deltaSourceTargets_no_source [OF Inr Some] by (simp add: errorMirrorURLs_def)
  next
    case None
    let ?targets = "zip (map (withSeparator env) targetURLs) targetAvailable"
    let ?run = "mirrorLoop env (sourceBaseDirOf env sourceURL)
        (withSeparator env sourceURL) ?targets (List env (withSeparator env sourceURL))"
    have l: "?run = (fst ?run, snd ?run)" by simp
    from assms(1) have "m \<in> set (fst ?run)"
      unfolding deltaSourceTargets_run [OF Inr None] .
    from mirrorLoop_instructions [OF l this assms(2)]
    obtain src where ne: "TargetContents m \<noteq> []"
      and src: "mirrorURLs.SourceContent m = Some src"
      and ts: "\<forall>t\<in>set (TargetContents m). \<exists>u\<in>fst ` set ?targets. URL t =
           urlJoinPath env u
             (entrySuffix env (sourceBaseDirOf env sourceURL) (withSeparator env sourceURL) src)"
      by blast
    have sub: "fst ` set ?targets \<subseteq> withSeparator env ` set targetURLs"
    proof
      fix u assume "u \<in> fst ` set ?targets"
      then obtain st where "(u, st) \<in> set ?targets" by auto
      then have "u \<in> set (map (withSeparator env) targetURLs)" by (rule set_zip_leftD)
      then show "u \<in> withSeparator env ` set targetURLs" by simp
    qed
    have "\<forall>t\<in>set (TargetContents m). \<exists>u\<in>set targetURLs. URL t =
           urlJoinPath env (withSeparator env u)
             (entrySuffix env (sourceBaseDirOf env sourceURL) (withSeparator env sourceURL) src)"
    proof
      fix t assume "t \<in> set (TargetContents m)"
      with ts obtain u where u: "u \<in> fst ` set ?targets" and eq: "URL t =
           urlJoinPath env u
             (entrySuffix env (sourceBaseDirOf env sourceURL) (withSeparator env sourceURL) src)"
        by blast
      from u sub obtain u0 where "u0 \<in> set targetURLs" "u = withSeparator env u0" by blast
      with eq show "\<exists>u\<in>set targetURLs. URL t =
           urlJoinPath env (withSeparator env u)
             (entrySuffix env (sourceBaseDirOf env sourceURL) (withSeparator env sourceURL) src)"
        by blast
    qed
    with ne src show ?thesis by simp
  qed
qed



lemma tracks_freshOracle:
  "List env u = map entryEvent v \<Longrightarrow> tracks (freshOracle env u) v"
  by (simp add: tracks_def freshOracle_def zeroEvent_def)

lemma getIsAvailable_ok:
  "url2Client env u = None \<Longrightarrow> getIsAvailable env u = Inr (freshOracle env u)"
  by (simp add: getIsAvailable_def freshOracle_def)

lemma lookupAvailable_regular:
  assumes "IsRegular srcType"
  shows "fst (lookupAvailable force entries e srcType srcSize) \<longleftrightarrow>
           (\<exists>tgt. find (\<lambda>c. URL c = e) entries = Some tgt \<and> IsRegular (Type tgt) \<and>
                  Size tgt = srcSize)"
    and "\<forall>c\<in>set entries. URL c \<noteq> e \<Longrightarrow>
           lookupAvailable force entries e srcType srcSize = (False, None)"
proof -
  show "fst (lookupAvailable force entries e srcType srcSize) \<longleftrightarrow>
           (\<exists>tgt. find (\<lambda>c. URL c = e) entries = Some tgt \<and> IsRegular (Type tgt) \<and>
                  Size tgt = srcSize)"
    using assms
    by (cases "find (\<lambda>c. URL c = e) entries")
       (auto simp add: lookupAvailable_def compareContent_def)
  assume "\<forall>c\<in>set entries. URL c \<noteq> e"
  then have "find (\<lambda>c. URL c = e) entries = None" by (simp add: find_None_iff)
  then show "lookupAvailable force entries e srcType srcSize = (False, None)"
    by (simp add: lookupAvailable_def)
qed

text \<open>
  C1, as amended: let the target listing be a sequence of entries in non-decreasing
  order of URL, and let queries be put to a new oracle, each for a regular-file source,
  with expected paths \<open>urlJoinPath env root suffix\<close> that are non-decreasing and lie after
  the target root. Then every query returns, and it answers available exactly when the
  first entry of the listing whose URL is the expected path is a regular file of the
  source's size; when no entry has the expected path it answers not available, with no
  error.
\<close>

theorem isAvailable_sorted_lookup:
  assumes "url2Client env root = None"
    and "List env root = map entryEvent entries"
    and "sorted (map URL entries)"
    and "sorted (map (\<lambda>q. urlJoinPath env root (fst q)) qs)"
    and "\<forall>q\<in>set qs. root < urlJoinPath env root (fst q)"
    and "\<forall>q\<in>set qs. IsRegular (fst (snd q))"
  shows "getIsAvailable env root = Inr (freshOracle env root) \<and>
         length (runQueries env qs (freshOracle env root)) = length qs \<and>
         (\<forall>i<length qs.
            \<exists>available err.
              runQueries env qs (freshOracle env root) ! i = Some (available, err) \<and>
              (available \<longleftrightarrow>
                 (\<exists>tgt. find (\<lambda>c. URL c = urlJoinPath env root (fst (qs ! i))) entries = Some tgt \<and>
                        IsRegular (Type tgt) \<and> Size tgt = snd (snd (qs ! i)))) \<and>
              ((\<forall>c\<in>set entries. URL c \<noteq> urlJoinPath env root (fst (qs ! i))) \<longrightarrow>
                 \<not> available \<and> err = None))"
proof -
  let ?st = "freshOracle env root"
  let ?ans = "\<lambda>q. lookupAvailable (mirrorIsForce env) entries (urlJoinPath env root (fst q))
                 (fst (snd q)) (snd (snd q))"
  have u: "url ?st = root" and c: "current ?st = root" by (simp_all add: freshOracle_def)
  have run: "runQueries env qs ?st = map (\<lambda>q. Some (?ans q)) qs"
    using runQueries_tracks [OF tracks_freshOracle [OF assms(2)], of env qs] assms(4,5)
    by (simp add: u c cursorAnswer_lookup [OF assms(3)])
  have each: "\<exists>available err.
        runQueries env qs ?st ! i = Some (available, err) \<and>
        (available \<longleftrightarrow>
           (\<exists>tgt. find (\<lambda>c. URL c = urlJoinPath env root (fst (qs ! i))) entries = Some tgt \<and>
                  IsRegular (Type tgt) \<and> Size tgt = snd (snd (qs ! i)))) \<and>
        ((\<forall>c\<in>set entries. URL c \<noteq> urlJoinPath env root (fst (qs ! i))) \<longrightarrow>
           \<not> available \<and> err = None)" if i: "i < length qs" for i
  proof -
    from i assms(6) have reg: "IsRegular (fst (snd (qs ! i)))" by simp
    have nth: "runQueries env qs ?st ! i = Some (fst (?ans (qs ! i)), snd (?ans (qs ! i)))"
      using i by (simp add: run)
    show ?thesis
      using nth lookupAvailable_regular [OF reg, where force = "mirrorIsForce env"
          and entries = entries and e = "urlJoinPath env root (fst (qs ! i))"
          and srcSize = "snd (snd (qs ! i))"]
      by auto
  qed
  from getIsAvailable_ok [OF assms(1)] run each show ?thesis by simp
qed

text \<open>
  C1, witness: the target holds \<^verbatim>\<open>a.txt\<close> (5 bytes) and \<^verbatim>\<open>sub/b.txt\<close>; the query for
  \<^verbatim>\<open>a.txt\<close> of 5 bytes answers available, the one for the absent \<^verbatim>\<open>b.txt\<close> answers not
  available with no error, and all three queries return.
\<close>

theorem isAvailable_sorted_lookup_witness:
  "(\<exists>err. runQueries mirroredEnv
       [(''a.txt'', 0x1A4, 5), (''b.txt'', 0x1A4, 1), (''sub/b.txt'', 0x1A4, 3)]
       (freshOracle mirroredEnv ''t/'') ! 0 = Some (True, err)) \<and>
   runQueries mirroredEnv [(''a.txt'', 0x1A4, 5), (''b.txt'', 0x1A4, 1), (''sub/b.txt'', 0x1A4, 3)]
     (freshOracle mirroredEnv ''t/'') ! 1 = Some (False, None) \<and>
   length (runQueries mirroredEnv
     [(''a.txt'', 0x1A4, 5), (''b.txt'', 0x1A4, 1), (''sub/b.txt'', 0x1A4, 3)]
     (freshOracle mirroredEnv ''t/'')) = 3"
proof -
  let ?qs = "[(''a.txt'', 0x1A4, 5), (''b.txt'', 0x1A4, 1), (''sub/b.txt'', 0x1A4, 3)]
    :: (string \<times> FileMode \<times> 64 word) list"
  define run where "run = runQueries mirroredEnv ?qs (freshOracle mirroredEnv ''t/'')"
  have h1: "url2Client mirroredEnv ''t/'' = None"
    by (simp add: mirroredEnv_def listingEnv_fields)
  have h2: "List mirroredEnv ''t/'' = map entryEvent exampleTarget"
    by (simp add: mirroredEnv_def listingEnv_fields)
  have h3: "sorted (map URL exampleTarget)"
    by (simp add: exampleTarget_def fileContent_def dirContent_def)
  have h4: "sorted (map (\<lambda>q. urlJoinPath mirroredEnv ''t/'' (fst q)) ?qs)"
    by (simp add: mirroredEnv_def example_defs)
  have h5: "\<forall>q\<in>set ?qs. ''t/'' < urlJoinPath mirroredEnv ''t/'' (fst q)"
    by (simp add: mirroredEnv_def example_defs)
  have h6: "\<forall>q\<in>set ?qs. IsRegular (fst (snd q))"
    by (simp add: regular_0644)
  note w = isAvailable_sorted_lookup [OF h1 h2 h3 h4 h5 h6, folded run_def]
  note len = w [THEN conjunct2, THEN conjunct1]
  note each = w [THEN conjunct2, THEN conjunct2, rule_format]
  have i0: "0 < length ?qs" and i1: "1 < length ?qs" by simp_all
  have found: "find (\<lambda>c. URL c = urlJoinPath mirroredEnv ''t/'' (fst (?qs ! 0))) exampleTarget
      = Some (fileContent ''t/a.txt'' 5) \<and> IsRegular (Type (fileContent ''t/a.txt'' 5)) \<and>
      Size (fileContent ''t/a.txt'' 5) = snd (snd (?qs ! 0))"
    by (simp add: mirroredEnv_def exampleTarget_def example_defs fileContent_regular)
       (simp add: mode_defs)
  then have ex: "\<exists>tgt.
      find (\<lambda>c. URL c = urlJoinPath mirroredEnv ''t/'' (fst (?qs ! 0))) exampleTarget = Some tgt \<and>
      IsRegular (Type tgt) \<and> Size tgt = snd (snd (?qs ! 0))"
    by (intro exI [where x = "fileContent ''t/a.txt'' 5"])
  from each [OF i0] obtain available err where a0: "run ! 0 = Some (available, err)"
    and b0: "available \<longleftrightarrow> (\<exists>tgt.
      find (\<lambda>c. URL c = urlJoinPath mirroredEnv ''t/'' (fst (?qs ! 0))) exampleTarget = Some tgt \<and>
      IsRegular (Type tgt) \<and> Size tgt = snd (snd (?qs ! 0)))"
    by (elim exE conjE)
  from b0 ex have "available" by (rule iffD2)
  with a0 have r0: "\<exists>err. run ! 0 = Some (True, err)" by simp
  have absent: "\<forall>c\<in>set exampleTarget. URL c \<noteq> urlJoinPath mirroredEnv ''t/'' (fst (?qs ! 1))"
    by (simp add: mirroredEnv_def exampleTarget_def example_defs)
  from each [OF i1] obtain available1 err1 where a1: "run ! 1 = Some (available1, err1)"
    and b1: "(\<forall>c\<in>set exampleTarget.
        URL c \<noteq> urlJoinPath mirroredEnv ''t/'' (fst (?qs ! 1))) \<longrightarrow>
      \<not> available1 \<and> err1 = None"
    by (elim exE conjE)
  from b1 absent have "\<not> available1 \<and> err1 = None" by (rule mp)
  with a1 have r1: "run ! 1 = Some (False, None)" by simp
  from len have len3: "length run = 3" by simp
  from r0 r1 len3 show ?thesis unfolding run_def by (intro conjI)
qed

text \<open>
  Two readings the statement above rules out. A query whose expected path is the target
  root itself, put to a new oracle, finds \<^verbatim>\<open>expected == current\<close> before anything was
  received, and dereferences the nil \<^verbatim>\<open>content.Content\<close>. And of two entries with one URL
  the cursor compares the first only: with force on, the query for 5 bytes answers not
  available although the second entry has 5 bytes.
\<close>

lemma isAvailable_root_query_panics:
  "fst (isAvailable (listingEnv False [(''t/'', [entryEvent (fileContent ''t/'' 5)])]) [] 0x1A4 5
          (freshOracle (listingEnv False [(''t/'', [entryEvent (fileContent ''t/'' 5)])]) ''t/''))
     = None"
  by (simp add: example_defs freshOracle_def isAvailable_def isAvailableLoop.simps zeroEvent_def)

lemma isAvailable_reads_first_entry:
  "fst (isAvailable
          (listingEnv True
             [(''t/'', [entryEvent (fileContent ''t/a'' 3), entryEvent (fileContent ''t/a'' 5)])])
          ''a'' 0x1A4 5
          (freshOracle
             (listingEnv True
                [(''t/'', [entryEvent (fileContent ''t/a'' 3), entryEvent (fileContent ''t/a'' 5)])])
             ''t/''))
     = Some (False, None)"
  by (simp add: example_defs freshOracle_def isAvailable_def isAvailableLoop.simps zeroEvent_def
        compareContent_def mode_defs)

text \<open>
  C1, counterexample to the claim as stated: a source that is a symbolic link of size 3
  is answered available, although the one entry of the target at the expected path has
  size 5.
\<close>

theorem isAvailable_symlink_source:
  "runQueries (listingEnv False [(''t/'', [entryEvent (fileContent ''t/a'' 5)])])
     [(''a'', ModeSymlink, 3)]
     (freshOracle (listingEnv False [(''t/'', [entryEvent (fileContent ''t/a'' 5)])]) ''t/'')
     = [Some (True, None)] \<and>
   List (listingEnv False [(''t/'', [entryEvent (fileContent ''t/a'' 5)])]) ''t/''
     = [entryEvent (fileContent ''t/a'' 5)] \<and>
   Size (fileContent ''t/a'' 5) \<noteq> 3"
  using symlink_not_regular
  by (simp add: listingEnv_def freshOracle_def isAvailable_def isAvailableLoop.simps
        exampleJoin_def HasSuffix_def TrimPrefix_def suffix_to_prefix zeroEvent_def
        entryEvent_def fileContent_def compareContent_def)









subsection \<open>Suppression and the source base directory\<close>

lemma getAllAvailable_ok:
  "\<forall>u\<in>set us. url2Client env u = None \<Longrightarrow>
   getAllAvailable env us = Inr (map (freshOracle env) us)"
  by (induction us) (simp_all add: getIsAvailable_ok)

lemma zip_map_same: "zip xs (map f xs) = map (\<lambda>x. (x, f x)) xs"
  by (induction xs) simp_all

lemma queryTargets_all_available:
  assumes "\<forall>(t, st, v)\<in>set tsv.
             url st = t \<and> tracks st v \<and> (fresh st \<longrightarrow> current st < urlJoinPath env t sfx) \<and>
             cursorAnswer (mirrorIsForce env) v (urlJoinPath env t sfx) ty sz = (True, None)"
  shows "queryTargets env sfx ty sz (map (\<lambda>(t, st, v). (t, st)) tsv) =
           ([], [], map (\<lambda>(t, st, v). (t, snd (isAvailable env sfx ty sz st))) tsv, False)"
  using assms
proof (induction tsv)
  case Nil
  show ?case by simp
next
  case (Cons a tsv)
  obtain t st v where a: "a = (t, st, v)" by (cases a) auto
  from Cons.prems a have h: "url st = t" "tracks st v"
    "fresh st \<Longrightarrow> current st < urlJoinPath env (url st) sfx"
    "cursorAnswer (mirrorIsForce env) v (urlJoinPath env (url st) sfx) ty sz = (True, None)"
    by auto
  have "fst (isAvailable env sfx ty sz st) = Some (True, None)"
    using isAvailable_tracks [OF h(2,3), of ty sz] h(4) by simp
  then have r: "isAvailable env sfx ty sz st =
      (Some (True, None), snd (isAvailable env sfx ty sz st))"
    by (cases "isAvailable env sfx ty sz st") simp
  have IH: "queryTargets env sfx ty sz (map (\<lambda>(t, st, v). (t, st)) tsv) =
      ([], [], map (\<lambda>(t, st, v). (t, snd (isAvailable env sfx ty sz st))) tsv, False)"
    using Cons.IH Cons.prems by simp
  have "queryTargets env sfx ty sz ((t, st) # map (\<lambda>(t, st, v). (t, st)) tsv) =
      ([], [], (t, snd (isAvailable env sfx ty sz st)) #
         map (\<lambda>(t, st, v). (t, snd (isAvailable env sfx ty sz st))) tsv, False)"
    by (subst queryTargets.simps, subst r) (simp add: IH)
  then show ?case by (simp add: a)
qed

lemma mirrorLoop_all_available:
  assumes "\<forall>(t, st, v)\<in>set tsv.
       url st = t \<and> tracks st v \<and>
       sorted (map (\<lambda>c. urlJoinPath env t (entrySuffix env base s c))
                 (filter (\<lambda>c. \<not> IsDir (Type c)) srcs)) \<and>
       (\<forall>c\<in>set srcs. \<not> IsDir (Type c) \<longrightarrow>
          (fresh st \<longrightarrow> current st < urlJoinPath env t (entrySuffix env base s c)) \<and>
          cursorAnswer (mirrorIsForce env) v (urlJoinPath env t (entrySuffix env base s c))
            (Type c) (Size c) = (True, None))"
  shows "mirrorLoop env base s (map (\<lambda>(t, st, v). (t, st)) tsv) (map entryEvent srcs) =
           ([], False)"
  using assms
proof (induction srcs arbitrary: tsv)
  case Nil
  show ?case by simp
next
  case (Cons c srcs)
  have ev: "Err (entryEvent c) = None" "Content (entryEvent c) = Some c"
    by (simp_all add: entryEvent_def)
  show ?case
  proof (cases "IsDir (Type c)")
    case True
    have "mirrorLoop env base s (map (\<lambda>(t, st, v). (t, st)) tsv) (map entryEvent srcs) =
        ([], False)"
    proof (rule Cons.IH)
      show "\<forall>(t, st, v)\<in>set tsv.
         url st = t \<and> tracks st v \<and>
         sorted (map (\<lambda>c. urlJoinPath env t (entrySuffix env base s c))
                   (filter (\<lambda>c. \<not> IsDir (Type c)) srcs)) \<and>
         (\<forall>c\<in>set srcs. \<not> IsDir (Type c) \<longrightarrow>
            (fresh st \<longrightarrow> current st < urlJoinPath env t (entrySuffix env base s c)) \<and>
            cursorAnswer (mirrorIsForce env) v (urlJoinPath env t (entrySuffix env base s c))
              (Type c) (Size c) = (True, None))"
        using Cons.prems True by auto
    qed
    then show ?thesis
      using mirrorLoop_dir_event [OF ev True] by simp
  next
    case False
    let ?sfx = "entrySuffix env base s c"
    let ?step = "\<lambda>(t, st, v). (t, snd (isAvailable env ?sfx (Type c) (Size c) st),
                   dropWhile (\<lambda>x. URL x < urlJoinPath env t ?sfx) v)"
    let ?tsv' = "map ?step tsv"
    have q: "queryTargets env ?sfx (Type c) (Size c) (map (\<lambda>(t, st, v). (t, st)) tsv) =
        ([], [], map (\<lambda>(t, st, v). (t, snd (isAvailable env ?sfx (Type c) (Size c) st))) tsv,
         False)"
    proof (rule queryTargets_all_available)
      show "\<forall>(t, st, v)\<in>set tsv.
         url st = t \<and> tracks st v \<and> (fresh st \<longrightarrow> current st < urlJoinPath env t ?sfx) \<and>
         cursorAnswer (mirrorIsForce env) v (urlJoinPath env t ?sfx) (Type c) (Size c) =
           (True, None)"
        using Cons.prems False by auto
    qed
    have same: "map (\<lambda>(t, st, v). (t, snd (isAvailable env ?sfx (Type c) (Size c) st))) tsv =
        map (\<lambda>(t, st, v). (t, st)) ?tsv'"
      by (simp add: case_prod_beta)
    have inv: "\<forall>(t, st, v)\<in>set ?tsv'.
         url st = t \<and> tracks st v \<and>
         sorted (map (\<lambda>c. urlJoinPath env t (entrySuffix env base s c))
                   (filter (\<lambda>c. \<not> IsDir (Type c)) srcs)) \<and>
         (\<forall>c\<in>set srcs. \<not> IsDir (Type c) \<longrightarrow>
            (fresh st \<longrightarrow> current st < urlJoinPath env t (entrySuffix env base s c)) \<and>
            cursorAnswer (mirrorIsForce env) v (urlJoinPath env t (entrySuffix env base s c))
              (Type c) (Size c) = (True, None))"
    proof -
      have one: "url (snd (isAvailable env ?sfx (Type c) (Size c) st)) = t \<and>
          tracks (snd (isAvailable env ?sfx (Type c) (Size c) st))
            (dropWhile (\<lambda>x. URL x < urlJoinPath env t ?sfx) v) \<and>
          sorted (map (\<lambda>c. urlJoinPath env t (entrySuffix env base s c))
                   (filter (\<lambda>c. \<not> IsDir (Type c)) srcs)) \<and>
          (\<forall>c'\<in>set srcs. \<not> IsDir (Type c') \<longrightarrow>
            (fresh (snd (isAvailable env ?sfx (Type c) (Size c) st)) \<longrightarrow>
               current (snd (isAvailable env ?sfx (Type c) (Size c) st)) <
                 urlJoinPath env t (entrySuffix env base s c')) \<and>
            cursorAnswer (mirrorIsForce env)
              (dropWhile (\<lambda>x. URL x < urlJoinPath env t ?sfx) v)
              (urlJoinPath env t (entrySuffix env base s c')) (Type c') (Size c') = (True, None))"
        if mem: "(t, st, v) \<in> set tsv" for t st v
      proof -
        from Cons.prems mem False have h: "url st = t" "tracks st v"
          "fresh st \<Longrightarrow> current st < urlJoinPath env (url st) ?sfx"
          and srt: "sorted (map (\<lambda>c. urlJoinPath env t (entrySuffix env base s c))
                 (filter (\<lambda>c. \<not> IsDir (Type c)) (c # srcs)))"
          and rest: "\<forall>c'\<in>set srcs. \<not> IsDir (Type c') \<longrightarrow>
              cursorAnswer (mirrorIsForce env) v (urlJoinPath env t (entrySuffix env base s c'))
                (Type c') (Size c') = (True, None)"
          by auto
        note step = isAvailable_tracks [OF h(2,3), of "Type c" "Size c"]
        from srt False have srt': "sorted (map (\<lambda>c. urlJoinPath env t (entrySuffix env base s c))
                 (filter (\<lambda>c. \<not> IsDir (Type c)) srcs))"
          and le: "\<forall>c'\<in>set srcs. \<not> IsDir (Type c') \<longrightarrow>
              urlJoinPath env t ?sfx \<le> urlJoinPath env t (entrySuffix env base s c')"
          by auto
        have ans: "\<forall>c'\<in>set srcs. \<not> IsDir (Type c') \<longrightarrow>
            cursorAnswer (mirrorIsForce env)
              (dropWhile (\<lambda>x. URL x < urlJoinPath env t ?sfx) v)
              (urlJoinPath env t (entrySuffix env base s c')) (Type c') (Size c') = (True, None)"
          using le rest by (simp add: cursorAnswer_dropWhile)
        from step h(1) srt' ans show ?thesis by simp
      qed
      then show ?thesis by auto
    qed
    have l: "mirrorLoop env base s
        (map (\<lambda>(t, st, v). (t, snd (isAvailable env ?sfx (Type c) (Size c) st))) tsv)
        (map entryEvent srcs) = ([], False)"
      unfolding same by (rule Cons.IH [OF inv])
    show ?thesis
      using mirrorLoop_entry_event [OF ev False q l] by simp
  qed
qed


lemma queryTargets_all_true:
  "\<forall>(t, st)\<in>set targets. fst (isAvailable env sfx ty sz st) = Some (True, None) \<Longrightarrow>
   queryTargets env sfx ty sz targets =
     ([], [], map (\<lambda>(t, st). (t, snd (isAvailable env sfx ty sz st))) targets, False)"
proof (induction targets)
  case Nil
  show ?case by simp
next
  case (Cons a targets)
  obtain t st where a: "a = (t, st)" by (cases a) auto
  from Cons.prems a have "fst (isAvailable env sfx ty sz st) = Some (True, None)" by simp
  then have r: "isAvailable env sfx ty sz st =
      (Some (True, None), snd (isAvailable env sfx ty sz st))"
    by (cases "isAvailable env sfx ty sz st") simp
  have IH: "queryTargets env sfx ty sz targets =
      ([], [], map (\<lambda>(t, st). (t, snd (isAvailable env sfx ty sz st))) targets, False)"
    using Cons.IH Cons.prems by simp
  have "queryTargets env sfx ty sz ((t, st) # targets) =
      ([], [], (t, snd (isAvailable env sfx ty sz st)) #
         map (\<lambda>(t, st). (t, snd (isAvailable env sfx ty sz st))) targets, False)"
    by (subst queryTargets.simps, subst r) (simp add: IH)
  then show ?case by (simp add: a)
qed

lemma mirrorLoop_suppressed:
  assumes "\<not> IsDir (Type src)"
    and "\<forall>(t, st)\<in>set targets.
           fst (isAvailable env (entrySuffix env base s src) (Type src) (Size src) st) =
             Some (True, None)"
  shows "mirrorLoop env base s targets (entryEvent src # evs) =
         mirrorLoop env base s
           (map (\<lambda>(t, st).
                   (t, snd (isAvailable env (entrySuffix env base s src) (Type src) (Size src) st)))
              targets) evs"
proof -
  have ev: "Err (entryEvent src) = None" "Content (entryEvent src) = Some src"
    by (simp_all add: entryEvent_def)
  let ?targets' = "map (\<lambda>(t, st).
      (t, snd (isAvailable env (entrySuffix env base s src) (Type src) (Size src) st))) targets"
  have l: "mirrorLoop env base s ?targets' evs =
      (fst (mirrorLoop env base s ?targets' evs), snd (mirrorLoop env base s ?targets' evs))"
    by simp
  show ?thesis
    using mirrorLoop_entry_event [OF ev assms(1) queryTargets_all_true [OF assms(2)] l]
    by simp
qed

lemma lookupAvailable_same:
  assumes "find (\<lambda>x. URL x = e) entries = Some tgt"
    and "IsRegular ty \<longrightarrow> IsRegular (Type tgt) \<and> Size tgt = sz"
  shows "lookupAvailable force entries e ty sz = (True, None)"
  using assms by (simp add: lookupAvailable_def compareContent_def)

text \<open>
  C9: every instruction the delta engine sends that is not an error instruction lists
  at least one target; a source entry that every target's oracle answers available
  sends nothing, and the loop goes on with the entries after it; and when the target
  listings are sorted and hold, at the expected path of every source entry that is not
  a directory, an entry of that kind and size, with the expected paths non-decreasing
  and after the target root, the engine sends no instruction at all and closes the
  channel.
\<close>

theorem deltaSourceTargets_suppresses_available:
  "(\<forall>m\<in>set (fst (deltaSourceTargets env sourceURL targetURLs)).
      mirrorURLs.Error m = None \<longrightarrow> TargetContents m \<noteq> []) \<and>
   (\<not> IsDir (Type src) \<and>
    (\<forall>(t, st)\<in>set targets.
       fst (isAvailable env (entrySuffix env base s src) (Type src) (Size src) st) =
         Some (True, None))
    \<longrightarrow> mirrorLoop env base s targets (entryEvent src # evs) =
        mirrorLoop env base s
          (map (\<lambda>(t, st).
                  (t, snd (isAvailable env (entrySuffix env base s src) (Type src) (Size src) st)))
             targets) evs) \<and>
   (url2Client env (withSeparator env sourceURL) = None \<and>
    List env (withSeparator env sourceURL) = map entryEvent sourceEntries \<and>
    (\<forall>u\<in>set targetURLs.
       url2Client env (withSeparator env u) = None \<and>
       List env (withSeparator env u) = map entryEvent (targetEntries u) \<and>
       sorted (map URL (targetEntries u)) \<and>
       sorted (map (\<lambda>c. urlJoinPath env (withSeparator env u)
                          (entrySuffix env (sourceBaseDirOf env sourceURL)
                             (withSeparator env sourceURL) c))
                 (filter (\<lambda>c. \<not> IsDir (Type c)) sourceEntries)) \<and>
       (\<forall>c\<in>set sourceEntries. \<not> IsDir (Type c) \<longrightarrow>
          withSeparator env u <
            urlJoinPath env (withSeparator env u)
              (entrySuffix env (sourceBaseDirOf env sourceURL) (withSeparator env sourceURL) c) \<and>
          (\<exists>tgt. find (\<lambda>x. URL x =
                     urlJoinPath env (withSeparator env u)
                       (entrySuffix env (sourceBaseDirOf env sourceURL)
                          (withSeparator env sourceURL) c))
                   (targetEntries u) = Some tgt \<and>
                 (IsRegular (Type c) \<longrightarrow> IsRegular (Type tgt) \<and> Size tgt = Size c))))
    \<longrightarrow> deltaSourceTargets env sourceURL targetURLs = ([], False))"
proof (intro conjI impI)
  show "\<forall>m\<in>set (fst (deltaSourceTargets env sourceURL targetURLs)).
      mirrorURLs.Error m = None \<longrightarrow> TargetContents m \<noteq> []"
    using deltaSourceTargets_instructions by blast
next
  assume "\<not> IsDir (Type src) \<and>
    (\<forall>(t, st)\<in>set targets.
       fst (isAvailable env (entrySuffix env base s src) (Type src) (Size src) st) =
         Some (True, None))"
  then show "mirrorLoop env base s targets (entryEvent src # evs) =
        mirrorLoop env base s
          (map (\<lambda>(t, st).
                  (t, snd (isAvailable env (entrySuffix env base s src) (Type src) (Size src) st)))
             targets) evs"
    using mirrorLoop_suppressed by blast
next
  let ?base = "sourceBaseDirOf env sourceURL"
  let ?s = "withSeparator env sourceURL"
  let ?E = "\<lambda>u c. urlJoinPath env (withSeparator env u) (entrySuffix env ?base ?s c)"
  assume H: "url2Client env ?s = None \<and>
    List env ?s = map entryEvent sourceEntries \<and>
    (\<forall>u\<in>set targetURLs.
       url2Client env (withSeparator env u) = None \<and>
       List env (withSeparator env u) = map entryEvent (targetEntries u) \<and>
       sorted (map URL (targetEntries u)) \<and>
       sorted (map (\<lambda>c. ?E u c) (filter (\<lambda>c. \<not> IsDir (Type c)) sourceEntries)) \<and>
       (\<forall>c\<in>set sourceEntries. \<not> IsDir (Type c) \<longrightarrow>
          withSeparator env u < ?E u c \<and>
          (\<exists>tgt. find (\<lambda>x. URL x = ?E u c) (targetEntries u) = Some tgt \<and>
                 (IsRegular (Type c) \<longrightarrow> IsRegular (Type tgt) \<and> Size tgt = Size c))))"
  then have src: "url2Client env ?s = None" "List env ?s = map entryEvent sourceEntries"
    and tg: "\<And>u. u \<in> set targetURLs \<Longrightarrow>
       url2Client env (withSeparator env u) = None \<and>
       List env (withSeparator env u) = map entryEvent (targetEntries u) \<and>
       sorted (map URL (targetEntries u)) \<and>
       sorted (map (\<lambda>c. ?E u c) (filter (\<lambda>c. \<not> IsDir (Type c)) sourceEntries)) \<and>
       (\<forall>c\<in>set sourceEntries. \<not> IsDir (Type c) \<longrightarrow>
          withSeparator env u < ?E u c \<and>
          (\<exists>tgt. find (\<lambda>x. URL x = ?E u c) (targetEntries u) = Some tgt \<and>
                 (IsRegular (Type c) \<longrightarrow> IsRegular (Type tgt) \<and> Size tgt = Size c)))"
    by blast+
  let ?ts = "map (withSeparator env) targetURLs"
  let ?tsv = "map (\<lambda>u. (withSeparator env u, freshOracle env (withSeparator env u),
                        targetEntries u)) targetURLs"
  have all: "getAllAvailable env ?ts = Inr (map (freshOracle env) ?ts)"
    using tg by (intro getAllAvailable_ok) simp
  have "zip ?ts (map (freshOracle env) ?ts) = map (\<lambda>t. (t, freshOracle env t)) ?ts"
    by (rule zip_map_same)
  then have targets: "zip ?ts (map (freshOracle env) ?ts) = map (\<lambda>(t, st, v). (t, st)) ?tsv"
    by (simp add: comp_def)
  have inv: "\<forall>(t, st, v)\<in>set ?tsv.
       url st = t \<and> tracks st v \<and>
       sorted (map (\<lambda>c. urlJoinPath env t (entrySuffix env ?base ?s c))
                 (filter (\<lambda>c. \<not> IsDir (Type c)) sourceEntries)) \<and>
       (\<forall>c\<in>set sourceEntries. \<not> IsDir (Type c) \<longrightarrow>
          (fresh st \<longrightarrow> current st < urlJoinPath env t (entrySuffix env ?base ?s c)) \<and>
          cursorAnswer (mirrorIsForce env) v (urlJoinPath env t (entrySuffix env ?base ?s c))
            (Type c) (Size c) = (True, None))"
  proof -
    have one: "url (freshOracle env (withSeparator env u)) = withSeparator env u \<and>
        tracks (freshOracle env (withSeparator env u)) (targetEntries u) \<and>
        sorted (map (\<lambda>c. ?E u c) (filter (\<lambda>c. \<not> IsDir (Type c)) sourceEntries)) \<and>
        (\<forall>c\<in>set sourceEntries. \<not> IsDir (Type c) \<longrightarrow>
          (fresh (freshOracle env (withSeparator env u)) \<longrightarrow>
             current (freshOracle env (withSeparator env u)) < ?E u c) \<and>
          cursorAnswer (mirrorIsForce env) (targetEntries u) (?E u c) (Type c) (Size c) =
            (True, None))"
      if u: "u \<in> set targetURLs" for u
    proof -
      note h = tg [OF u]
      from h have tr: "tracks (freshOracle env (withSeparator env u)) (targetEntries u)"
        by (intro tracks_freshOracle) simp
      from h have srt: "sorted (map URL (targetEntries u))" by simp
      have ans: "cursorAnswer (mirrorIsForce env) (targetEntries u) (?E u c) (Type c) (Size c) =
          (True, None)" if c: "c \<in> set sourceEntries" "\<not> IsDir (Type c)" for c
      proof -
        from h c obtain tgt where "find (\<lambda>x. URL x = ?E u c) (targetEntries u) = Some tgt"
          "IsRegular (Type c) \<longrightarrow> IsRegular (Type tgt) \<and> Size tgt = Size c"
          by blast
        then have "lookupAvailable (mirrorIsForce env) (targetEntries u) (?E u c) (Type c)
            (Size c) = (True, None)"
          by (rule lookupAvailable_same)
        then show ?thesis by (simp add: cursorAnswer_lookup [OF srt])
      qed
      have cur: "current (freshOracle env (withSeparator env u)) < ?E u c"
        if c: "c \<in> set sourceEntries" "\<not> IsDir (Type c)" for c
        using h c by (simp add: freshOracle_def)
      from tr h ans cur show ?thesis by (simp add: freshOracle_def)
    qed
    then show ?thesis by simp
  qed
  have "deltaSourceTargets env sourceURL targetURLs =
      mirrorLoop env ?base ?s (map (\<lambda>(t, st, v). (t, st)) ?tsv) (map entryEvent sourceEntries)"
    unfolding deltaSourceTargets_run [OF all src(1)] targets src(2) ..
  also have "\<dots> = ([], False)"
    by (rule mirrorLoop_all_available [OF inv])
  finally show "deltaSourceTargets env sourceURL targetURLs = ([], False)" .
qed


text \<open>
  C9, witness: the source with \<^verbatim>\<open>a.txt\<close> and \<^verbatim>\<open>sub/b.txt\<close> against the target that holds
  both: nothing is sent for \<^verbatim>\<open>a.txt\<close>, and nothing by the whole run.
\<close>

theorem deltaSourceTargets_suppresses_available_witness:
  "mirrorLoop mirroredEnv [] ''s/'' [(''t/'', freshOracle mirroredEnv ''t/'')]
     [entryEvent (fileContent ''s/a.txt'' 5)] = ([], False) \<and>
   deltaSourceTargets mirroredEnv ''s/'' [''t''] = ([], False)"
proof -
  have nd: "\<not> IsDir (Type (fileContent ''s/a.txt'' 5))"
    using fileContent_regular IsDir_not_IsRegular by blast
  have sfx: "entrySuffix mirroredEnv [] ''s/'' (fileContent ''s/a.txt'' 5) = ''a.txt''"
    by (simp add: entrySuffix_def TrimPrefix_def fileContent_def)
  have av: "fst (isAvailable mirroredEnv ''a.txt'' (Type (fileContent ''s/a.txt'' 5))
      (Size (fileContent ''s/a.txt'' 5)) (freshOracle mirroredEnv ''t/'')) = Some (True, None)"
    by (simp add: mirroredEnv_def exampleTarget_def example_defs freshOracle_def
          isAvailable_def isAvailableLoop.simps zeroEvent_def compareContent_def mode_defs)
  have one: "mirrorLoop mirroredEnv [] ''s/'' [(''t/'', freshOracle mirroredEnv ''t/'')]
     [entryEvent (fileContent ''s/a.txt'' 5)] = ([], False)"
    using deltaSourceTargets_suppresses_available [where env = mirroredEnv
        and src = "fileContent ''s/a.txt'' 5" and base = "[]" and s = "''s/''"
        and targets = "[(''t/'', freshOracle mirroredEnv ''t/'')]" and evs = "[]",
        THEN conjunct2, THEN conjunct1] nd
    by (simp add: sfx av)
  have all: "deltaSourceTargets mirroredEnv ''s/'' [''t''] = ([], False)"
    using deltaSourceTargets_suppresses_available [where env = mirroredEnv
        and sourceURL = "''s/''" and targetURLs = "[''t'']" and sourceEntries = exampleSource
        and targetEntries = "\<lambda>u. exampleTarget", THEN conjunct2, THEN conjunct2]
    by (simp add: mirroredEnv_def exampleSource_def exampleTarget_def example_defs mode_defs)
  from one all show ?thesis ..
qed



subsection \<open>The copy planner\<close>


lemma TrimSpace_Nil: "TrimSpace [] = []"
  by (simp add: TrimSpace_def)

text \<open>
  C2, the code at the failing input: for a source slice that is empty and not nil, and
  the target \<^verbatim>\<open>out/\<close>, the classifier returns type D, not the invalid type.
\<close>

theorem guessCopyURLType_empty_slice:
  "guessCopyURLType env (Some []) ''out/'' = copyURLsTypeD"
  by (simp add: guessCopyURLType_def TrimSpace_def spaceRunes_def)

lemma guessCopyURLType_nil: "guessCopyURLType env None targetURL = copyURLsTypeInvalid"
  by (simp add: guessCopyURLType_def)

text \<open>
  C4: for a non-empty list of sources and a target that is not blank, the classifier
  returns type C for one source with the recursive marker, type B for one source
  without it when the target is an existing directory, type A for one source without
  it otherwise, and type D for more than one source.
\<close>

theorem guessCopyURLType_shapes:
  assumes "srcs \<noteq> []" and "TrimSpace targetURL \<noteq> []"
  shows "(length srcs = 1 \<and> isURLRecursive env (hd srcs) \<longrightarrow>
            guessCopyURLType env (Some srcs) targetURL = copyURLsTypeC) \<and>
         (length srcs = 1 \<and> \<not> isURLRecursive env (hd srcs) \<and> isTargetURLDir env targetURL \<longrightarrow>
            guessCopyURLType env (Some srcs) targetURL = copyURLsTypeB) \<and>
         (length srcs = 1 \<and> \<not> isURLRecursive env (hd srcs) \<and> \<not> isTargetURLDir env targetURL \<longrightarrow>
            guessCopyURLType env (Some srcs) targetURL = copyURLsTypeA) \<and>
         (length srcs > 1 \<longrightarrow> guessCopyURLType env (Some srcs) targetURL = copyURLsTypeD)"
proof -
  from assms(2) have t: "targetURL \<noteq> []" using TrimSpace_Nil by auto
  from assms(1) have hd: "srcs ! 0 = hd srcs" by (simp add: hd_conv_nth)
  show ?thesis using assms(2) t hd by (simp add: guessCopyURLType_def)
qed

text \<open>
  C4, witness: the four shapes, on \<^verbatim>\<open>dir/...\<close>, on \<^verbatim>\<open>f1\<close> into the directory \<^verbatim>\<open>out/\<close>, on
  \<^verbatim>\<open>f1\<close> to \<^verbatim>\<open>f2\<close>, and on two sources.
\<close>

theorem guessCopyURLType_shapes_witness:
  "guessCopyURLType exampleCopyEnv (Some [''dir/...'']) ''out/'' = copyURLsTypeC \<and>
   guessCopyURLType exampleCopyEnv (Some [''f1'']) ''out/'' = copyURLsTypeB \<and>
   guessCopyURLType exampleCopyEnv (Some [''f1'']) ''f2'' = copyURLsTypeA \<and>
   guessCopyURLType exampleCopyEnv (Some [''f1'', ''f2'']) ''out/'' = copyURLsTypeD"
  using guessCopyURLType_shapes [of "[''dir/...'']" "''out/''" exampleCopyEnv]
    guessCopyURLType_shapes [of "[''f1'']" "''out/''" exampleCopyEnv]
    guessCopyURLType_shapes [of "[''f1'']" "''f2''" exampleCopyEnv]
    guessCopyURLType_shapes [of "[''f1'', ''f2'']" "''out/''" exampleCopyEnv]
  by (simp add: TrimSpace_def spaceRunes_def exampleCopyEnv_def HasSuffix_def suffix_to_prefix)


text \<open>
  C6: the generator of type A sends exactly one instruction and closes the channel: the
  error of the stat when the stat fails, the invalid-source error when the source is
  not a regular file, and otherwise an instruction with no error whose source name and
  target name are the two arguments.
\<close>

theorem prepareCopyURLsTypeA_cases:
  "(\<forall>err. url2Stat env sourceURL = Inl err \<longrightarrow>
      prepareCopyURLsTypeA env sourceURL targetURL = [errorCopyURLs err]) \<and>
   (\<forall>c. url2Stat env sourceURL = Inr c \<and> \<not> IsRegular (Type c) \<longrightarrow>
      prepareCopyURLsTypeA env sourceURL targetURL = [errorCopyURLs (ErrInvalidSource sourceURL)]) \<and>
   (\<forall>c. url2Stat env sourceURL = Inr c \<and> IsRegular (Type c) \<longrightarrow>
      (\<exists>m. prepareCopyURLsTypeA env sourceURL targetURL = [m] \<and> Error m = None \<and>
           map_option Name (SourceContent m) = Some sourceURL \<and>
           map_option Name (TargetContent m) = Some targetURL))"
  by (simp add: prepareCopyURLsTypeA_def)

text \<open>
  C6, witness: a missing source, a directory as source, and the file \<^verbatim>\<open>f1\<close>.
\<close>

theorem prepareCopyURLsTypeA_cases_witness:
  "prepareCopyURLsTypeA exampleCopyEnv ''missing'' ''out/f''
     = [errorCopyURLs (BackendError ''no such file or directory'')] \<and>
   prepareCopyURLsTypeA exampleCopyEnv ''out'' ''out/f'' = [errorCopyURLs (ErrInvalidSource ''out'')] \<and>
   (\<exists>m. prepareCopyURLsTypeA exampleCopyEnv ''f1'' ''out/f'' = [m] \<and> Error m = None \<and>
        map_option Name (SourceContent m) = Some ''f1'' \<and>
        map_option Name (TargetContent m) = Some ''out/f'')"
proof -
  have s1: "url2Stat exampleCopyEnv ''missing'' = Inl (BackendError ''no such file or directory'')"
    by (simp add: exampleCopyEnv_def)
  have s2: "url2Stat exampleCopyEnv ''out'' = Inr (dirContent ''out'')"
    by (simp add: exampleCopyEnv_def)
  have s3: "url2Stat exampleCopyEnv ''f1'' = Inr (fileContent ''f1'' 5)"
    by (simp add: exampleCopyEnv_def)
  have d: "\<not> IsRegular (Type (dirContent ''out''))"
    using dirContent_dir IsDir_not_IsRegular by blast
  show ?thesis
    using prepareCopyURLsTypeA_cases [of exampleCopyEnv "''missing''" "''out/f''"]
      prepareCopyURLsTypeA_cases [of exampleCopyEnv "''out''" "''out/f''"]
      prepareCopyURLsTypeA_cases [of exampleCopyEnv "''f1''" "''out/f''"]
      s1 s2 s3 d fileContent_regular [of "''f1''" 5]
    by simp
qed









subsection \<open>Mirror instructions\<close>

text \<open>
  C10, the code at the failing input: \<^verbatim>\<open>isEmpty\<close> on a pure error instruction, whose
  \<^verbatim>\<open>SourceContent\<close> is nil and whose \<^verbatim>\<open>Error\<close> is set, dereferences the nil pointer.
\<close>

theorem isEmpty_error_instruction_panics:
  "isEmpty \<lparr>mirrorURLs.SourceContent = None, TargetContents = [], mirrorURLs.Error = Some e\<rparr>
     = None"
  by (simp add: isEmpty_def)

end
